theory Spec2Isabelle
  imports Complex_Main "HOL-Library.Sublist" "HOL-Library.AList"
begin

section \<open>Training points of the OXEMU emulator: \<open>trainingpoints.py\<close>\<close>

text \<open>
  The module has three functions: \<open>generate_prior\<close>, \<open>scale_lhs\<close> and \<open>pk_linear\<close>.
  They are embedded below as HOL functions. Floating-point numbers are kept abstract
  (a type variable \<open>'v\<close>): the module never computes with them itself, it only hands
  them to \<open>scipy.stats\<close> and to the power-spectrum engine. Exceptions are values of
  the sum type \<open>error + 'a\<close>; the effects on the outside world (reading the sample file,
  calling the save helpers, calling the engine) are appended to a log of events that is
  passed through every function, so that an exception keeps the effects made before it.
\<close>

subsection \<open>Data model\<close>

datatype error =
    AttributeError
  | TypeError
  | KeyError
  | IndexError
  | ValueError
  | OSError
  | RuntimeError

text \<open>
  The prior specification handed to \<open>generate_prior\<close>: a dictionary with the entries
  \<open>'distribution'\<close> (the family name) and \<open>'specs'\<close> (the positional arguments).
\<close>

record 'v dictionary =
  distribution :: string
  specs :: "'v list"

text \<open>
  A scaled cosmology is a Python dictionary from parameter name to value. Python
  dictionaries keep insertion order and an assignment to a present key replaces its value
  in place; \<open>AList.update\<close> on an association list does exactly that.
\<close>

type_synonym 'v cosmo = "(string \<times> 'v) list"

text \<open>What the save helpers are given: the list of cosmologies or the list of spectra.\<close>

datatype ('v, 'p) data =
    Cosmologies "'v cosmo list"
  | Spectra "'p list"

text \<open>
  The events of a run, in the order in which they happen:
  \<^item> \<open>Read_csv path\<close>: \<open>pd.read_csv(path, index_col=[0])\<close>;
  \<^item> \<open>Save_csv xs folder name\<close>: \<open>hp.save_csv(pd.DataFrame(xs), folder, name)\<close>;
  \<^item> \<open>Save_list xs folder name\<close>: \<open>hp.save_list(xs, folder, name)\<close>;
  \<^item> \<open>Pk_call cosmo redshift\<close>: \<open>module.pk_linear(cosmo, redshift)\<close>.
\<close>

datatype ('v, 'p) event =
    Read_csv string
  | Save_csv "('v, 'p) data" string string
  | Save_list "('v, 'p) data" string string
  | Pk_call "'v cosmo" 'v

text \<open>
  Everything the module imports, as one record. None of it is defined in
  \<open>trainingpoints.py\<close>, so every function below takes it as a parameter.
  \<^item> \<open>COSMO\<close>, \<open>PRIORS\<close>, \<open>Z_MIN\<close>, \<open>Z_MAX\<close>, \<open>K_MIN\<close>, \<open>K_MAX\<close>: the constants of
    \<open>oxemu.config\<close>.
  \<^item> \<open>scipy_stats\<close>: the namespace of \<open>scipy.stats\<close>; an attribute is given by what
    calling it on a list of positional arguments does (for an attribute that cannot be
    called, that is \<open>Inl TypeError\<close>).
  \<^item> \<open>ppf\<close>: the attribute \<open>ppf\<close> of an object returned by such a call: an error when the
    object has no such attribute, else the quantile function, which may itself raise.
  \<^item> \<open>read_csv\<close>: \<open>pd.read_csv(path, index_col=[0])\<close>: the rows of the table without the
    index column, or an error.
  \<^item> \<open>PowerSpectrum\<close> and \<open>pk_linear_method\<close>: the class of \<open>oxemu.src.cosmology\<close>.
    Modelled from the spec: the engine is ``a constructor taking four numeric bounds and
    an invocation method taking a scaled-cosmology mapping and a redshift scalar,
    returning a power-spectrum mapping'', ``an opaque function'' that may fail on a
    cosmology.
\<close>

record ('v, 'd, 'm, 'p) env =
  COSMO :: "string list"
  PRIORS :: "string \<rightharpoonup> 'v dictionary"
  Z_MIN :: 'v
  Z_MAX :: 'v
  K_MIN :: 'v
  K_MAX :: 'v
  scipy_stats :: "string \<rightharpoonup> ('v list \<Rightarrow> error + 'd)"
  ppf :: "'d \<Rightarrow> error + ('v \<Rightarrow> error + 'v)"
  read_csv :: "string \<Rightarrow> error + 'v list list"
  PowerSpectrum :: "'v \<Rightarrow> 'v \<Rightarrow> 'v \<Rightarrow> 'v \<Rightarrow> 'm"
  pk_linear_method :: "'m \<Rightarrow> 'v cosmo \<Rightarrow> 'v \<Rightarrow> error + 'p"

subsection \<open>Strings and paths\<close>

text \<open>Python's \<open>needle in haystack\<close> on strings: a contiguous occurrence anywhere.\<close>

fun str_contains :: "string \<Rightarrow> string \<Rightarrow> bool" where
  "str_contains needle [] = (needle = [])"
| "str_contains needle (c # cs) = (prefix needle (c # cs) \<or> str_contains needle cs)"

text \<open>
  \<open>os.path.join(a, b)\<close> of \<open>posixpath\<close>, for two components: a second component that
  starts with the separator replaces the first; otherwise the two are put together with
  one separator, unless the first is empty or already ends with one.
\<close>

definition path_join :: "string \<Rightarrow> string \<Rightarrow> string" where
  "path_join a b =
     (if prefix ''/'' b then b
      else if a = [] \<or> suffix ''/'' a then a @ b
      else a @ ''/'' @ b)"

text \<open>Lines 48 to 51 of \<open>scale_lhs\<close>: the path of the sample file.\<close>

definition lhs_path :: "string \<Rightarrow> string" where
  "lhs_path fname =
     (if str_contains ''.csv'' fname then path_join ''data'' fname
      else path_join ''data'' (fname @ ''.csv''))"

subsection \<open>\<open>generate_prior\<close>\<close>

text \<open>
  \<open>getattr(scipy.stats, dictionary['distribution'])(*dictionary['specs'])\<close>: the
  attribute lookup raises \<open>AttributeError\<close> for a name that \<open>scipy.stats\<close> does not have;
  the call returns what the attribute returns or raises.
\<close>

definition generate_prior :: "('v, 'd, 'm, 'p) env \<Rightarrow> 'v dictionary \<Rightarrow> error + 'd" where
  "generate_prior env dictionary =
     (case scipy_stats env (distribution dictionary) of
        None \<Rightarrow> Inl AttributeError
      | Some family \<Rightarrow> family (specs dictionary))"

subsection \<open>\<open>scale_lhs\<close>\<close>

text \<open>
  Lines 64 and 65: \<open>for param in CONFIG.COSMO: priors[param] = generate_prior(CONFIG.PRIORS[param])\<close>.
  A parameter without an entry in \<open>CONFIG.PRIORS\<close> raises \<open>KeyError\<close>.
\<close>

fun build_priors ::
  "('v, 'd, 'm, 'p) env \<Rightarrow> string list \<Rightarrow> (string \<rightharpoonup> 'd) \<Rightarrow> error + (string \<rightharpoonup> 'd)" where
  "build_priors env [] priors = Inr priors"
| "build_priors env (param # params) priors =
     (case PRIORS env param of
        None \<Rightarrow> Inl KeyError
      | Some dictionary \<Rightarrow>
          (case generate_prior env dictionary of
             Inl e \<Rightarrow> Inl e
           | Inr prior \<Rightarrow> build_priors env params (priors(param \<mapsto> prior))))"

text \<open>
  Line 72, the dictionary comprehension over \<open>k in range(len(CONFIG.COSMO))\<close>, for one
  row. For each \<open>k\<close>, in Python's evaluation order: the key \<open>CONFIG.COSMO[k]\<close>, the
  prior \<open>priors[CONFIG.COSMO[k]]\<close>, its attribute \<open>ppf\<close>, the cell \<open>cosmo[k]\<close> (by
  position in the row; \<open>IndexError\<close> when the row is too short), the call, and the
  assignment to the key.
\<close>

fun scale_row ::
  "('v, 'd, 'm, 'p) env \<Rightarrow> (string \<rightharpoonup> 'd) \<Rightarrow> 'v list \<Rightarrow> nat list \<Rightarrow> 'v cosmo \<Rightarrow> error + 'v cosmo" where
  "scale_row env priors row [] cosmo = Inr cosmo"
| "scale_row env priors row (k # ks) cosmo =
     (if k < length (COSMO env) then
        (case priors (COSMO env ! k) of
           None \<Rightarrow> Inl KeyError
         | Some prior \<Rightarrow>
             (case ppf env prior of
                Inl e \<Rightarrow> Inl e
              | Inr quantile \<Rightarrow>
                  (if k < length row then
                     (case quantile (row ! k) of
                        Inl e \<Rightarrow> Inl e
                      | Inr v \<Rightarrow>
                          scale_row env priors row ks (AList.update (COSMO env ! k) v cosmo))
                   else Inl IndexError)))
      else Inl IndexError)"

text \<open>
  Lines 67 to 75, the loop over \<open>i in range(ncosmo)\<close>: row \<open>i\<close> is read with
  \<open>lhs.iloc[i, :]\<close>, scaled, and appended to \<open>cosmo_list\<close>.
\<close>

fun scale_rows ::
  "('v, 'd, 'm, 'p) env \<Rightarrow> (string \<rightharpoonup> 'd) \<Rightarrow> 'v list list \<Rightarrow> nat list \<Rightarrow> 'v cosmo list
     \<Rightarrow> error + 'v cosmo list" where
  "scale_rows env priors lhs [] cosmo_list = Inr cosmo_list"
| "scale_rows env priors lhs (i # is) cosmo_list =
     (if i < length lhs then
        (case scale_row env priors (lhs ! i) [0..<length (COSMO env)] [] of
           Inl e \<Rightarrow> Inl e
         | Inr cosmo \<Rightarrow> scale_rows env priors lhs is (cosmo_list @ [cosmo]))
      else Inl IndexError)"

text \<open>
  \<open>scale_lhs(fname, save)\<close>. The result is the returned list or the exception, together
  with the log of events extended by those of this call. A caller that leaves the
  arguments out passes \<open>fname = 'lhs_500'\<close> and \<open>save = True\<close>.
\<close>

definition scale_lhs ::
  "('v, 'd, 'm, 'p) env \<Rightarrow> string \<Rightarrow> bool \<Rightarrow> ('v, 'p) event list
     \<Rightarrow> (error + 'v cosmo list) \<times> ('v, 'p) event list" where
  "scale_lhs env fname save evs =
     (let path = lhs_path fname;
          evs1 = evs @ [Read_csv path]
      in case read_csv env path of
           Inl e \<Rightarrow> (Inl e, evs1)
         | Inr lhs \<Rightarrow>
             (let ncosmo = length lhs
              in case build_priors env (COSMO env) Map.empty of
                   Inl e \<Rightarrow> (Inl e, evs1)
                 | Inr priors \<Rightarrow>
                     (case scale_rows env priors lhs [0..<ncosmo] [] of
                        Inl e \<Rightarrow> (Inl e, evs1)
                      | Inr cosmo_list \<Rightarrow>
                          (Inr cosmo_list,
                           if save then
                             evs1 @ [Save_csv (Cosmologies cosmo_list) ''data'' ''cosmologies'',
                                     Save_list (Cosmologies cosmo_list) ''data'' ''cosmologies'']
                           else evs1))))"

subsection \<open>\<open>pk_linear\<close>\<close>

text \<open>
  Lines 103 to 107: \<open>for cosmo in cosmologies: pk_lin.append(module.pk_linear(cosmo, redshift))\<close>.
  An exception of the engine ends the loop.
\<close>

fun pk_loop ::
  "('v, 'd, 'm, 'p) env \<Rightarrow> 'm \<Rightarrow> 'v \<Rightarrow> 'v cosmo list \<Rightarrow> 'p list \<Rightarrow> ('v, 'p) event list
     \<Rightarrow> (error + 'p list) \<times> ('v, 'p) event list" where
  "pk_loop env pk_module redshift [] pk_lin evs = (Inr pk_lin, evs)"
| "pk_loop env pk_module redshift (cosmo # cosmologies) pk_lin evs =
     (case pk_linear_method env pk_module cosmo redshift of
        Inl e \<Rightarrow> (Inl e, evs @ [Pk_call cosmo redshift])
      | Inr pk \<Rightarrow>
          pk_loop env pk_module redshift cosmologies (pk_lin @ [pk]) (evs @ [Pk_call cosmo redshift]))"

definition pk_linear ::
  "('v, 'd, 'm, 'p) env \<Rightarrow> string \<Rightarrow> 'v \<Rightarrow> ('v, 'p) event list
     \<Rightarrow> (error + 'v cosmo list \<times> 'p list) \<times> ('v, 'p) event list" where
  "pk_linear env fname redshift evs =
     (case scale_lhs env fname True evs of
        (Inl e, evs1) \<Rightarrow> (Inl e, evs1)
      | (Inr cosmologies, evs1) \<Rightarrow>
          (let pk_module = PowerSpectrum env (Z_MIN env) (Z_MAX env) (K_MIN env) (K_MAX env)
           in case pk_loop env pk_module redshift cosmologies [] evs1 of
                (Inl e, evs2) \<Rightarrow> (Inl e, evs2)
              | (Inr pk_lin, evs2) \<Rightarrow>
                  (Inr (cosmologies, pk_lin),
                   evs2 @ [Save_csv (Spectra pk_lin) ''data'' ''pk_linear'',
                           Save_list (Spectra pk_lin) ''data'' ''pk_linear''])))"

subsection \<open>One cell of the comprehension\<close>

text \<open>
  The value that one step of the comprehension of line 72 computes for index \<open>k\<close>, or
  the exception it raises. It is used to state what \<open>scale_row\<close> does as a whole.
\<close>

definition scale_cell ::
  "('v, 'd, 'm, 'p) env \<Rightarrow> (string \<rightharpoonup> 'd) \<Rightarrow> 'v list \<Rightarrow> nat \<Rightarrow> error + 'v" where
  "scale_cell env priors row k =
     (if k < length (COSMO env) then
        (case priors (COSMO env ! k) of
           None \<Rightarrow> Inl KeyError
         | Some prior \<Rightarrow>
             (case ppf env prior of
                Inl e \<Rightarrow> Inl e
              | Inr quantile \<Rightarrow> if k < length row then quantile (row ! k) else Inl IndexError))
      else Inl IndexError)"

text \<open>
  \<open>prior.ppf(u)\<close>: the attribute lookup, then the call.
\<close>

definition quantile_at :: "('v, 'd, 'm, 'p) env \<Rightarrow> 'd \<Rightarrow> 'v \<Rightarrow> error + 'v" where
  "quantile_at env prior u =
     (case ppf env prior of
        Inl e \<Rightarrow> Inl e
      | Inr quantile \<Rightarrow> quantile u)"

subsection \<open>The uniform family of \<open>scipy.stats\<close>\<close>

text \<open>
  Python floats as far as the uniform family needs them: a finite value, taken as a real
  number (rounding and the infinities are left out), or \<open>nan\<close>. The comparisons \<open><=\<close>
  and \<open><\<close> of Python are false as soon as one side is \<open>nan\<close>.
\<close>

datatype pyfloat = Float real | NaN



text \<open>
  Modelled from the spec: \<open>scipy.stats.uniform\<close>, a library that is not in \<open>src/\<close>. The
  spec has a prior as ``a named probability distribution (by family name, e.g. uniform,
  normal) plus numeric parameters (location/scale/shape)'', whose quantile function
  ``maps a probability value in [0,1] to the value of the distribution at that
  percentile'', and has the construction fail when ``the parameter count/types mismatch
  the family's requirements''. The library's documentation gives the rest:
  \<open>uniform(loc=0, scale=1)\<close> is the uniform distribution on \<open>[loc, loc + scale]\<close>; the
  call takes at most these two positional arguments (one more raises \<open>TypeError\<close>) and
  does not look at their values; the frozen distribution it returns is the pair of
  \<open>loc\<close> and \<open>scale\<close>. Its \<open>ppf(q)\<close> is \<open>loc + scale * q\<close> when \<open>scale\<close> is positive and
  \<open>q\<close> is in \<open>[0, 1]\<close>, and \<open>nan\<close> otherwise (a \<open>scale\<close> that is not positive, a \<open>nan\<close>
  argument, a \<open>q\<close> outside \<open>[0, 1]\<close>); \<open>ppf\<close> itself does not raise.
\<close>

definition scipy_uniform :: "pyfloat list \<Rightarrow> error + pyfloat \<times> pyfloat" where
  "scipy_uniform args =
     (case args of
        [] \<Rightarrow> Inr (Float 0, Float 1)
      | [loc] \<Rightarrow> Inr (loc, Float 1)
      | [loc, scale] \<Rightarrow> Inr (loc, scale)
      | _ \<Rightarrow> Inl TypeError)"

fun uniform_ppf :: "pyfloat \<times> pyfloat \<Rightarrow> pyfloat \<Rightarrow> pyfloat" where
  "uniform_ppf (Float loc, Float scale) (Float q) =
     (if 0 < scale \<and> 0 \<le> q \<and> q \<le> 1 then Float (loc + scale * q) else NaN)"
| "uniform_ppf _ _ = NaN"

definition scipy_ppf :: "pyfloat \<times> pyfloat \<Rightarrow> error + (pyfloat \<Rightarrow> error + pyfloat)" where
  "scipy_ppf prior = Inr (\<lambda>q. Inr (uniform_ppf prior q))"


subsection \<open>A small configuration for concrete runs\<close>

text \<open>
  The example of the specification: two parameters, each with a uniform prior on
  \<open>[0, 1]\<close>, over the reals. \<open>scipy.stats.uniform(loc=0, scale=1)\<close> takes at most two
  positional arguments, and for a positive scale and a unit value in \<open>[0, 1]\<close>, all
  that the runs of this configuration use, its quantile function is \<open>loc + scale * q\<close>.
  There are three sample files; the engine of the example returns the values of the
  cosmology and fails on a cosmology whose \<open>param1\<close> is \<open>7/10\<close>.
\<close>

definition example_uniform :: "real list \<Rightarrow> error + real \<times> real" where
  "example_uniform args =
     (case args of
        [] \<Rightarrow> Inr (0, 1)
      | [loc] \<Rightarrow> Inr (loc, 1)
      | [loc, scale] \<Rightarrow> Inr (loc, scale)
      | _ \<Rightarrow> Inl TypeError)"

definition example_ppf :: "real \<times> real \<Rightarrow> error + (real \<Rightarrow> error + real)" where
  "example_ppf prior = Inr (\<lambda>q. Inr (fst prior + snd prior * q))"

definition example_read_csv :: "string \<Rightarrow> error + real list list" where
  "example_read_csv path =
     (if path = ''data/lhs_500.csv'' then Inr [[1/2, 1/2]]
      else if path = ''data/lhs_3.csv'' then Inr [[1/2, 1/2], [7/10, 1/10], [1/5, 1/5]]
      else if path = ''data/lhs_0.csv'' then Inr []
      else Inl OSError)"

definition example_pk :: "unit \<Rightarrow> real cosmo \<Rightarrow> real \<Rightarrow> error + real list" where
  "example_pk pk_module cosmo redshift =
     (if map_of cosmo ''param1'' = Some (7/10) then Inl RuntimeError else Inr (map snd cosmo))"

definition example_env :: "(real, real \<times> real, unit, real list) env" where
  "example_env =
     \<lparr>COSMO = [''param1'', ''param2''],
      PRIORS = [''param1'' \<mapsto> \<lparr>distribution = ''uniform'', specs = [0, 1]\<rparr>,
                ''param2'' \<mapsto> \<lparr>distribution = ''uniform'', specs = [0, 1]\<rparr>],
      Z_MIN = 0, Z_MAX = 5, K_MIN = 1/10000, K_MAX = 50,
      scipy_stats = [''uniform'' \<mapsto> example_uniform],
      ppf = example_ppf,
      read_csv = example_read_csv,
      PowerSpectrum = (\<lambda>z_min z_max k_min k_max. ()),
      pk_linear_method = example_pk\<rparr>"

text \<open>
  A second configuration, over \<open>pyfloat\<close> and with the uniform family as modelled above:
  \<open>param1\<close> is uniform on \<open>[2, 5]\<close> and \<open>param2\<close> on \<open>[-1, 1]\<close>. A third one has the
  same parameter name twice.
\<close>

definition uniform_read_csv :: "string \<Rightarrow> error + pyfloat list list" where
  "uniform_read_csv path =
     (if path = ''data/lhs_2.csv'' then Inr [[Float (1/2), Float (1/4)], [Float 0, Float 1]]
      else if path = ''data/lhs_1.csv'' then Inr [[Float (1/4), Float (3/4)]]
      else Inl OSError)"

definition uniform_env :: "(pyfloat, pyfloat \<times> pyfloat, unit, pyfloat list) env" where
  "uniform_env =
     \<lparr>COSMO = [''param1'', ''param2''],
      PRIORS = [''param1'' \<mapsto> \<lparr>distribution = ''uniform'', specs = [Float 2, Float 3]\<rparr>,
                ''param2'' \<mapsto> \<lparr>distribution = ''uniform'', specs = [Float (-1), Float 2]\<rparr>],
      Z_MIN = Float 0, Z_MAX = Float 5, K_MIN = Float (1/10000), K_MAX = Float 50,
      scipy_stats = [''uniform'' \<mapsto> scipy_uniform],
      ppf = scipy_ppf,
      read_csv = uniform_read_csv,
      PowerSpectrum = (\<lambda>z_min z_max k_min k_max. ()),
      pk_linear_method = (\<lambda>pk_module cosmo redshift. Inr (map snd cosmo))\<rparr>"

definition duplicate_env :: "(pyfloat, pyfloat \<times> pyfloat, unit, pyfloat list) env" where
  "duplicate_env =
     uniform_env
       \<lparr>COSMO := [''p'', ''p''],
        PRIORS := [''p'' \<mapsto> \<lparr>distribution = ''uniform'', specs = [Float 0, Float 1]\<rparr>]\<rparr>"

section \<open>Auxiliary facts\<close>

subsection \<open>The path of the sample file\<close>

lemma str_contains_sublist: "str_contains needle haystack = sublist needle haystack"
  by (induction haystack) (auto simp: sublist_Cons_right)

lemma str_contains_iff: "str_contains needle haystack \<longleftrightarrow> (\<exists>p s. haystack = p @ needle @ s)"
  by (simp add: str_contains_sublist sublist_def)

lemma path_join_data:
  "path_join ''data'' b = (if prefix ''/'' b then b else ''data/'' @ b)"
  by (simp add: path_join_def suffix_def)

lemma lhs_path_eq:
  "lhs_path fname =
     (if prefix ''/'' fname then
        (if \<exists>p s. fname = p @ ''.csv'' @ s then fname else fname @ ''.csv'')
      else
        (if \<exists>p s. fname = p @ ''.csv'' @ s then ''data/'' @ fname
         else ''data/'' @ fname @ ''.csv''))"
proof (cases fname)
  case Nil
  then show ?thesis
    by (simp add: lhs_path_def path_join_data)
next
  case (Cons c cs)
  have "prefix ''/'' (fname @ ''.csv'') = prefix ''/'' fname"
    using Cons by simp
  then show ?thesis
    unfolding lhs_path_def path_join_data str_contains_iff by simp
qed

subsection \<open>What \<open>scale_lhs\<close> returns and what it logs\<close>

lemma scale_lhs_events:
  "snd (scale_lhs env fname save evs) =
     evs @ Read_csv (lhs_path fname) #
       (case fst (scale_lhs env fname save evs) of
          Inl e \<Rightarrow> []
        | Inr cosmo_list \<Rightarrow>
            if save then [Save_csv (Cosmologies cosmo_list) ''data'' ''cosmologies'',
                          Save_list (Cosmologies cosmo_list) ''data'' ''cosmologies'']
            else [])"
  by (simp add: scale_lhs_def Let_def split: sum.split)

lemma scale_lhs_result:
  "fst (scale_lhs env fname save evs) =
     (case read_csv env (lhs_path fname) of
        Inl e \<Rightarrow> Inl e
      | Inr lhs \<Rightarrow>
          (case build_priors env (COSMO env) Map.empty of
             Inl e \<Rightarrow> Inl e
           | Inr priors \<Rightarrow> scale_rows env priors lhs [0..<length lhs] []))"
  by (simp add: scale_lhs_def Let_def split: sum.split)

subsection \<open>The loops\<close>

lemma scale_row_Cons_cell:
  "scale_row env priors row (k # ks) cosmo =
     (case scale_cell env priors row k of
        Inl e \<Rightarrow> Inl e
      | Inr v \<Rightarrow> scale_row env priors row ks (AList.update (COSMO env ! k) v cosmo))"
  by (simp add: scale_cell_def split: option.split sum.split)

lemma scale_row_Inr_iff:
  "scale_row env priors row ks cosmo = Inr out \<longleftrightarrow>
     (\<exists>vs. map (scale_cell env priors row) ks = map Inr vs \<and>
           out = AList.updates (map ((!) (COSMO env)) ks) vs cosmo)"
proof (induction ks arbitrary: cosmo)
  case Nil
  then show ?case by auto
next
  case (Cons k ks)
  show ?case
  proof (cases "scale_cell env priors row k")
    case (Inl e)
    then show ?thesis
      by (auto simp: scale_row_Cons_cell Cons_eq_map_conv simp del: scale_row.simps)
  next
    case (Inr v)
    then show ?thesis
      by (auto simp: scale_row_Cons_cell Cons.IH Cons_eq_map_conv simp del: scale_row.simps)
  qed
qed

lemma update_fresh: "k \<notin> fst ` set al \<Longrightarrow> AList.update k v al = al @ [(k, v)]"
  by (induction al) auto

lemma updates_fresh:
  "distinct (map fst al @ ks) \<Longrightarrow> length vs = length ks \<Longrightarrow>
     AList.updates ks vs al = al @ zip ks vs"
proof (induction ks arbitrary: vs al)
  case Nil
  then show ?case by simp
next
  case (Cons k ks)
  then obtain v vs' where vs: "vs = v # vs'" by (cases vs) auto
  from Cons.prems have fresh: "k \<notin> fst ` set al" by auto
  have "AList.updates ks vs' (al @ [(k, v)]) = (al @ [(k, v)]) @ zip ks vs'"
    using Cons.prems vs by (intro Cons.IH) auto
  then show ?case
    using vs fresh by (simp add: update_fresh)
qed

lemma build_priors_Inr:
  "build_priors env params priors0 = Inr priors \<Longrightarrow>
     (\<forall>param\<in>set params. \<exists>dictionary prior.
         PRIORS env param = Some dictionary \<and> generate_prior env dictionary = Inr prior \<and>
         priors param = Some prior) \<and>
     (\<forall>param. param \<notin> set params \<longrightarrow> priors param = priors0 param)"
proof (induction params arbitrary: priors0)
  case Nil
  then show ?case by simp
next
  case (Cons a params)
  from Cons.prems obtain dictionary prior where
    d: "PRIORS env a = Some dictionary" and p: "generate_prior env dictionary = Inr prior"
    and rest: "build_priors env params (priors0(a \<mapsto> prior)) = Inr priors"
    by (auto split: option.splits sum.splits)
  from Cons.IH [OF rest] have
    ih1: "\<forall>param\<in>set params. \<exists>dictionary prior.
         PRIORS env param = Some dictionary \<and> generate_prior env dictionary = Inr prior \<and>
         priors param = Some prior"
    and ih2: "\<forall>param. param \<notin> set params \<longrightarrow> priors param = (priors0(a \<mapsto> prior)) param"
    by blast+
  have "\<exists>dictionary prior. PRIORS env a = Some dictionary \<and>
          generate_prior env dictionary = Inr prior \<and> priors a = Some prior"
  proof (cases "a \<in> set params")
    case True
    with ih1 show ?thesis by blast
  next
    case False
    with ih2 have "priors a = Some prior" by simp
    with d p show ?thesis by blast
  qed
  with ih1 ih2 show ?case by auto
qed

lemma scale_rows_Inr_iff:
  "scale_rows env priors lhs is cosmo_list = Inr out \<longleftrightarrow>
     (\<exists>cs. map (\<lambda>i. if i < length lhs
                     then scale_row env priors (lhs ! i) [0..<length (COSMO env)] []
                     else Inl IndexError) is = map Inr cs \<and>
           out = cosmo_list @ cs)"
proof (induction "is" arbitrary: cosmo_list)
  case Nil
  then show ?case by auto
next
  case (Cons i "is")
  show ?case
  proof (cases "i < length lhs")
    case False
    then show ?thesis by (auto simp: Cons_eq_map_conv)
  next
    case True
    show ?thesis
    proof (cases "scale_row env priors (lhs ! i) [0..<length (COSMO env)] []")
      case (Inl e)
      with True show ?thesis by (auto simp: Cons_eq_map_conv)
    next
      case (Inr c)
      with True show ?thesis by (auto simp: Cons.IH Cons_eq_map_conv)
    qed
  qed
qed

lemma scale_rows_all_Inr_iff:
  "scale_rows env priors lhs [0..<length lhs] [] = Inr out \<longleftrightarrow>
     map (\<lambda>row. scale_row env priors row [0..<length (COSMO env)] []) lhs = map Inr out"
proof -
  have "map (\<lambda>i. if i < length lhs
                  then scale_row env priors (lhs ! i) [0..<length (COSMO env)] []
                  else Inl IndexError) [0..<length lhs] =
        map (\<lambda>row. scale_row env priors row [0..<length (COSMO env)] []) lhs"
    by (rule nth_equalityI) auto
  then show ?thesis
    by (simp add: scale_rows_Inr_iff)
qed

lemma pk_loop_Inr_iff:
  "pk_loop env pk_module redshift cosmologies pk_lin evs = (Inr out, evs') \<longleftrightarrow>
     (\<exists>pks. map (\<lambda>cosmo. pk_linear_method env pk_module cosmo redshift) cosmologies = map Inr pks \<and>
            out = pk_lin @ pks \<and>
            evs' = evs @ map (\<lambda>cosmo. Pk_call cosmo redshift) cosmologies)"
proof (induction cosmologies arbitrary: pk_lin evs)
  case Nil
  then show ?case by auto
next
  case (Cons cosmo cosmologies)
  show ?case
  proof (cases "pk_linear_method env pk_module cosmo redshift")
    case (Inl e)
    then show ?thesis by (auto simp: Cons_eq_map_conv)
  next
    case (Inr pk)
    then show ?thesis by (auto simp: Cons.IH Cons_eq_map_conv)
  qed
qed

lemma pk_loop_Inl:
  "i < length cosmologies \<Longrightarrow>
   \<forall>j<i. \<exists>pk. pk_linear_method env pk_module (cosmologies ! j) redshift = Inr pk \<Longrightarrow>
   pk_linear_method env pk_module (cosmologies ! i) redshift = Inl e \<Longrightarrow>
   pk_loop env pk_module redshift cosmologies pk_lin evs =
     (Inl e, evs @ map (\<lambda>cosmo. Pk_call cosmo redshift) (take (Suc i) cosmologies))"
proof (induction cosmologies arbitrary: i pk_lin evs)
  case Nil
  then show ?case by simp
next
  case (Cons cosmo cosmologies)
  show ?case
  proof (cases i)
    case 0
    with Cons.prems show ?thesis by simp
  next
    case (Suc n)
    with Cons.prems(2) obtain pk where pk: "pk_linear_method env pk_module cosmo redshift = Inr pk"
      by fastforce
    have "pk_loop env pk_module redshift cosmologies (pk_lin @ [pk]) (evs @ [Pk_call cosmo redshift]) =
            (Inl e, (evs @ [Pk_call cosmo redshift]) @
               map (\<lambda>cosmo. Pk_call cosmo redshift) (take (Suc n) cosmologies))"
    proof (rule Cons.IH)
      show "n < length cosmologies" using Cons.prems(1) Suc by simp
      show "\<forall>j<n. \<exists>pk. pk_linear_method env pk_module (cosmologies ! j) redshift = Inr pk"
        using Cons.prems(2) Suc by fastforce
      show "pk_linear_method env pk_module (cosmologies ! n) redshift = Inl e"
        using Cons.prems(3) Suc by simp
    qed
    with pk Suc show ?thesis by simp
  qed
qed

subsection \<open>Which parts of the environment \<open>scale_lhs\<close> looks at\<close>

lemma generate_prior_cong:
  "scipy_stats env' = scipy_stats env \<Longrightarrow> generate_prior env' dictionary = generate_prior env dictionary"
  by (simp add: generate_prior_def)

lemma build_priors_cong:
  assumes "PRIORS env' = PRIORS env" and "scipy_stats env' = scipy_stats env"
  shows "build_priors env' params priors = build_priors env params priors"
proof -
  have g: "generate_prior env' dictionary = generate_prior env dictionary" for dictionary
    using assms(2) by (simp add: generate_prior_def)
  show ?thesis
    by (induction params arbitrary: priors)
       (simp_all add: assms(1) g split: option.split sum.split)
qed

lemma scale_row_cong:
  assumes "COSMO env' = COSMO env" and "ppf env' = ppf env"
  shows "scale_row env' priors row ks cosmo = scale_row env priors row ks cosmo"
  by (induction ks arbitrary: cosmo) (simp_all add: assms split: option.split sum.split)

lemma scale_rows_cong:
  assumes "COSMO env' = COSMO env" and "ppf env' = ppf env"
  shows "scale_rows env' priors lhs is cosmo_list = scale_rows env priors lhs is cosmo_list"
proof -
  have r: "scale_row env' priors row ks cosmo = scale_row env priors row ks cosmo" for row ks cosmo
    using assms by (rule scale_row_cong)
  show ?thesis
    by (induction "is" arbitrary: cosmo_list) (simp_all add: assms(1) r split: sum.split)
qed


subsection \<open>What \<open>pk_linear\<close> returns and what it logs\<close>

lemma pk_linear_Inr_iff:
  "fst (pk_linear env fname redshift evs) = Inr (cosmologies, pk_lin) \<longleftrightarrow>
     fst (scale_lhs env fname True evs) = Inr cosmologies \<and>
     map (\<lambda>cosmo. pk_linear_method env
            (PowerSpectrum env (Z_MIN env) (Z_MAX env) (K_MIN env) (K_MAX env)) cosmo redshift)
         cosmologies = map Inr pk_lin"
proof -
  let ?M = "PowerSpectrum env (Z_MIN env) (Z_MAX env) (K_MIN env) (K_MAX env)"
  let ?f = "\<lambda>cosmo. pk_linear_method env ?M cosmo redshift"
  obtain r evs1 where s: "scale_lhs env fname True evs = (r, evs1)"
    by (cases "scale_lhs env fname True evs")
  show ?thesis
  proof (cases r)
    case (Inl e)
    with s show ?thesis by (simp add: pk_linear_def)
  next
    case cs: (Inr cs)
    obtain r2 evs2 where l: "pk_loop env ?M redshift cs [] evs1 = (r2, evs2)"
      by (cases "pk_loop env ?M redshift cs [] evs1")
    show ?thesis
    proof (cases r2)
      case (Inl e)
      have "map ?f cs \<noteq> map Inr pks" for pks
      proof
        assume "map ?f cs = map Inr pks"
        then have "pk_loop env ?M redshift cs [] evs1 =
                     (Inr ([] @ pks), evs1 @ map (\<lambda>cosmo. Pk_call cosmo redshift) cs)"
          by (simp only: pk_loop_Inr_iff) blast
        with l Inl show False by simp
      qed
      with s cs l Inl show ?thesis
        by (auto simp: pk_linear_def)
    next
      case (Inr pks)
      with l have "map ?f cs = map Inr pks"
        by (simp add: pk_loop_Inr_iff)
      moreover have "map Inr pks = map Inr pk_lin \<longleftrightarrow> pks = pk_lin"
        by (simp add: inj_map_eq_map)
      ultimately show ?thesis
        using s cs l Inr by (auto simp: pk_linear_def)
    qed
  qed
qed

lemma scale_lhs_length:
  assumes "read_csv env (lhs_path fname) = Inr lhs"
    and "fst (scale_lhs env fname save evs) = Inr cosmo_list"
  shows "length cosmo_list = length lhs"
proof -
  from assms obtain priors where
    "scale_rows env priors lhs [0..<length lhs] [] = Inr cosmo_list"
    by (auto simp: scale_lhs_result split: sum.splits)
  then have "map (\<lambda>row. scale_row env priors row [0..<length (COSMO env)] []) lhs = map Inr cosmo_list"
    by (simp only: scale_rows_all_Inr_iff)
  then show ?thesis
    by (rule map_eq_imp_length_eq [symmetric])
qed

subsection \<open>Row by row\<close>

lemma scale_lhs_nth:
  assumes "read_csv env (lhs_path fname) = Inr lhs"
    and "fst (scale_lhs env fname save evs) = Inr cosmo_list"
    and "i < length lhs"
  shows "\<exists>priors. build_priors env (COSMO env) Map.empty = Inr priors \<and>
           scale_row env priors (lhs ! i) [0..<length (COSMO env)] [] = Inr (cosmo_list ! i)"
proof -
  from assms(1,2) obtain priors where
    b: "build_priors env (COSMO env) Map.empty = Inr priors" and
    "scale_rows env priors lhs [0..<length lhs] [] = Inr cosmo_list"
    by (auto simp: scale_lhs_result split: sum.splits)
  then have m: "map (\<lambda>row. scale_row env priors row [0..<length (COSMO env)] []) lhs = map Inr cosmo_list"
    by (simp only: scale_rows_all_Inr_iff)
  then have "length lhs = length cosmo_list"
    by (rule map_eq_imp_length_eq)
  with m assms(3) have "scale_row env priors (lhs ! i) [0..<length (COSMO env)] [] = Inr (cosmo_list ! i)"
    using nth_map [of i lhs "\<lambda>row. scale_row env priors row [0..<length (COSMO env)] []"]
      nth_map [of i cosmo_list Inr] by simp
  with b show ?thesis by blast
qed

subsection \<open>When the priors can be built and a cell can be scaled\<close>

lemma build_priors_Inr_ex:
  assumes "\<forall>param\<in>set params. \<exists>dictionary prior.
             PRIORS env param = Some dictionary \<and> generate_prior env dictionary = Inr prior"
  shows "\<exists>priors. build_priors env params priors0 = Inr priors"
  using assms
proof (induction params arbitrary: priors0)
  case Nil
  then show ?case by simp
next
  case (Cons a params)
  then obtain dictionary prior where
    "PRIORS env a = Some dictionary" and "generate_prior env dictionary = Inr prior"
    by auto
  moreover have "\<exists>priors. build_priors env params (priors0(a \<mapsto> prior)) = Inr priors"
    using Cons.prems by (intro Cons.IH) simp
  ultimately show ?case by simp
qed

lemma scale_cell_Inr_iff:
  "scale_cell env priors row k = Inr v \<longleftrightarrow>
     k < length (COSMO env) \<and> k < length row \<and>
     (\<exists>prior. priors (COSMO env ! k) = Some prior \<and> quantile_at env prior (row ! k) = Inr v)"
  by (auto simp: scale_cell_def quantile_at_def split: option.splits sum.splits)

lemma scale_row_distinct_iff:
  assumes "distinct (COSMO env)"
  shows "scale_row env priors row [0..<length (COSMO env)] [] = Inr cosmo \<longleftrightarrow>
           map fst cosmo = COSMO env \<and>
           (\<forall>k<length (COSMO env). scale_cell env priors row k = Inr (snd (cosmo ! k)))"
proof -
  let ?n = "length (COSMO env)"
  have names: "map ((!) (COSMO env)) [0..<?n] = COSMO env"
    by (rule map_nth)
  show ?thesis
  proof
    assume "scale_row env priors row [0..<?n] [] = Inr cosmo"
    then obtain vs where
      cells: "map (scale_cell env priors row) [0..<?n] = map Inr vs" and
      out: "cosmo = AList.updates (map ((!) (COSMO env)) [0..<?n]) vs []"
      unfolding scale_row_Inr_iff by blast
    from cells have len: "length vs = ?n"
      using map_eq_imp_length_eq [of "scale_cell env priors row" "[0..<?n]" Inr vs] by simp
    have zip: "cosmo = zip (COSMO env) vs"
      using updates_fresh [of "[]" "COSMO env" vs] assms len out names by simp
    have "scale_cell env priors row k = Inr (snd (cosmo ! k))" if "k < ?n" for k
      using cells that len zip
        nth_map [of k "[0..<?n]" "scale_cell env priors row"] nth_map [of k vs Inr]
      by simp
    with zip len show "map fst cosmo = COSMO env \<and>
           (\<forall>k<?n. scale_cell env priors row k = Inr (snd (cosmo ! k)))"
      by simp
  next
    assume a: "map fst cosmo = COSMO env \<and>
           (\<forall>k<?n. scale_cell env priors row k = Inr (snd (cosmo ! k)))"
    let ?vs = "map snd cosmo"
    from a have len: "length cosmo = ?n"
      using length_map [of fst cosmo] by simp
    have cells: "map (scale_cell env priors row) [0..<?n] = map Inr ?vs"
      using a len by (intro nth_equalityI) simp_all
    have "cosmo = zip (map fst cosmo) (map snd cosmo)"
      by (simp add: zip_map_fst_snd)
    with a have zip: "cosmo = zip (COSMO env) ?vs"
      by simp
    have "AList.updates (map ((!) (COSMO env)) [0..<?n]) ?vs [] = zip (COSMO env) ?vs"
      using updates_fresh [of "[]" "COSMO env" ?vs] assms len names by simp
    with zip have "cosmo = AList.updates (map ((!) (COSMO env)) [0..<?n]) ?vs []"
      by simp
    with cells show "scale_row env priors row [0..<?n] [] = Inr cosmo"
      unfolding scale_row_Inr_iff by blast
  qed
qed


lemma map_of_nth_distinct:
  assumes "distinct (map fst al)" and "k < length al"
  shows "map_of al (fst (al ! k)) = Some (snd (al ! k))"
proof -
  have "(fst (al ! k), snd (al ! k)) \<in> set al"
    using assms(2) by simp
  with assms(1) show ?thesis
    by (simp only: map_of_eq_Some_iff)
qed

section \<open>The claims\<close>

text \<open>
  C1 (as amended). When the configured parameter names are pairwise distinct,
  \<open>scale_lhs\<close> returns a list exactly when the prior of every configured parameter can
  be built, the list has one element per row of the sample matrix, and its \<open>i\<close>-th
  element has the configured parameter names as its keys, in the configured order, and
  maps the \<open>k\<close>-th name to the value that \<open>ppf\<close> of that parameter's prior (the object
  \<open>generate_prior\<close> built from the parameter's entry in \<open>CONFIG.PRIORS\<close>) returns for the
  \<open>k\<close>-th value of row \<open>i\<close>. So the returned list holds these values, and the list of
  these values is returned whenever the priors can be built and every quantile call
  succeeds. With a name configured twice the claim fails: see the counterexample.
\<close>

theorem scale_lhs_values:
  assumes "distinct (COSMO env)"
    and "read_csv env (lhs_path fname) = Inr lhs"
  shows "fst (scale_lhs env fname save evs) = Inr cosmo_list \<longleftrightarrow>
         (\<forall>k<length (COSMO env). \<exists>dictionary prior.
             PRIORS env (COSMO env ! k) = Some dictionary \<and>
             generate_prior env dictionary = Inr prior) \<and>
         length cosmo_list = length lhs \<and>
         (\<forall>i<length lhs.
             map fst (cosmo_list ! i) = COSMO env \<and>
             (\<forall>k<length (COSMO env). \<exists>dictionary prior v.
                 PRIORS env (COSMO env ! k) = Some dictionary \<and>
                 generate_prior env dictionary = Inr prior \<and>
                 k < length (lhs ! i) \<and>
                 quantile_at env prior (lhs ! i ! k) = Inr v \<and>
                 map_of (cosmo_list ! i) (COSMO env ! k) = Some v))"
  (is "?R \<longleftrightarrow> ?B \<and> ?C \<and> ?V")
proof
  let ?n = "length (COSMO env)"
  assume ?R
  with assms(2) obtain priors where
    b: "build_priors env (COSMO env) Map.empty = Inr priors" and
    rows: "scale_rows env priors lhs [0..<length lhs] [] = Inr cosmo_list"
    by (auto simp: scale_lhs_result split: sum.splits)
  from rows have m: "map (\<lambda>row. scale_row env priors row [0..<?n] []) lhs = map Inr cosmo_list"
    by (simp only: scale_rows_all_Inr_iff)
  then have count: ?C
    by (rule map_eq_imp_length_eq [symmetric])
  have pr: "\<exists>dictionary prior. PRIORS env (COSMO env ! k) = Some dictionary \<and>
              generate_prior env dictionary = Inr prior \<and> priors (COSMO env ! k) = Some prior"
    if "k < ?n" for k
    using build_priors_Inr [OF b] that nth_mem [of k "COSMO env"] by blast
  then have built: ?B by blast
  have vals: ?V
  proof (intro allI impI conjI)
    fix i assume i: "i < length lhs"
    with m count have "scale_row env priors (lhs ! i) [0..<?n] [] = Inr (cosmo_list ! i)"
      using nth_map [of i lhs "\<lambda>row. scale_row env priors row [0..<?n] []"]
        nth_map [of i cosmo_list Inr] by simp
    then have keys: "map fst (cosmo_list ! i) = COSMO env" and
      cells: "\<forall>k<?n. scale_cell env priors (lhs ! i) k = Inr (snd (cosmo_list ! i ! k))"
      unfolding scale_row_distinct_iff [OF assms(1)] by blast+
    show "map fst (cosmo_list ! i) = COSMO env" by (rule keys)
    fix k assume k: "k < ?n"
    from pr [OF k] obtain dictionary prior where
      d: "PRIORS env (COSMO env ! k) = Some dictionary" and
      g: "generate_prior env dictionary = Inr prior" and
      p: "priors (COSMO env ! k) = Some prior"
      by blast
    from cells k p have r: "k < length (lhs ! i)" and
      q: "quantile_at env prior (lhs ! i ! k) = Inr (snd (cosmo_list ! i ! k))"
      by (auto simp: scale_cell_Inr_iff)
    have len: "length (cosmo_list ! i) = ?n"
      using keys length_map [of fst "cosmo_list ! i"] by simp
    have "map_of (cosmo_list ! i) (fst (cosmo_list ! i ! k)) = Some (snd (cosmo_list ! i ! k))"
      using assms(1) keys k len by (intro map_of_nth_distinct) simp_all
    moreover have "fst (cosmo_list ! i ! k) = COSMO env ! k"
      using keys k len nth_map [of k "cosmo_list ! i" fst] by simp
    ultimately have "map_of (cosmo_list ! i) (COSMO env ! k) = Some (snd (cosmo_list ! i ! k))"
      by simp
    with d g r q show "\<exists>dictionary prior v.
                 PRIORS env (COSMO env ! k) = Some dictionary \<and>
                 generate_prior env dictionary = Inr prior \<and>
                 k < length (lhs ! i) \<and>
                 quantile_at env prior (lhs ! i ! k) = Inr v \<and>
                 map_of (cosmo_list ! i) (COSMO env ! k) = Some v"
      by blast
  qed
  from built count vals show "?B \<and> ?C \<and> ?V" by blast
next
  let ?n = "length (COSMO env)"
  assume rhs: "?B \<and> ?C \<and> ?V"
  then have built: ?B and count: ?C and vals: ?V by blast+
  have "\<forall>param\<in>set (COSMO env). \<exists>dictionary prior.
          PRIORS env param = Some dictionary \<and> generate_prior env dictionary = Inr prior"
    using built by (auto simp: in_set_conv_nth)
  then obtain priors where b: "build_priors env (COSMO env) Map.empty = Inr priors"
    using build_priors_Inr_ex by blast
  have pr: "\<exists>dictionary prior. PRIORS env (COSMO env ! k) = Some dictionary \<and>
              generate_prior env dictionary = Inr prior \<and> priors (COSMO env ! k) = Some prior"
    if "k < ?n" for k
    using build_priors_Inr [OF b] that nth_mem [of k "COSMO env"] by blast
  have row: "scale_row env priors (lhs ! i) [0..<?n] [] = Inr (cosmo_list ! i)"
    if i: "i < length lhs" for i
  proof -
    from vals i have keys: "map fst (cosmo_list ! i) = COSMO env" by blast
    have len: "length (cosmo_list ! i) = ?n"
      using keys length_map [of fst "cosmo_list ! i"] by simp
    have "scale_cell env priors (lhs ! i) k = Inr (snd (cosmo_list ! i ! k))" if k: "k < ?n" for k
    proof -
      from vals i k obtain dictionary prior v where
        d: "PRIORS env (COSMO env ! k) = Some dictionary" and
        g: "generate_prior env dictionary = Inr prior" and
        r: "k < length (lhs ! i)" and
        q: "quantile_at env prior (lhs ! i ! k) = Inr v" and
        mo: "map_of (cosmo_list ! i) (COSMO env ! k) = Some v"
        by blast
      from pr [OF k] d g have p: "priors (COSMO env ! k) = Some prior"
        by auto
      have "map_of (cosmo_list ! i) (fst (cosmo_list ! i ! k)) = Some (snd (cosmo_list ! i ! k))"
        using assms(1) keys k len by (intro map_of_nth_distinct) simp_all
      moreover have "fst (cosmo_list ! i ! k) = COSMO env ! k"
        using keys k len nth_map [of k "cosmo_list ! i" fst] by simp
      ultimately have "v = snd (cosmo_list ! i ! k)"
        using mo by simp
      with k r p q show ?thesis
        by (auto simp: scale_cell_Inr_iff)
    qed
    with keys show ?thesis
      unfolding scale_row_distinct_iff [OF assms(1)] by blast
  qed
  have "map (\<lambda>row. scale_row env priors row [0..<?n] []) lhs = map Inr cosmo_list"
    using count row by (intro nth_equalityI) simp_all
  then have "scale_rows env priors lhs [0..<length lhs] [] = Inr cosmo_list"
    by (simp only: scale_rows_all_Inr_iff)
  with assms(2) b show ?R
    by (simp add: scale_lhs_result)
qed


theorem scale_lhs_values_witness:
  "distinct (COSMO uniform_env) \<and>
   read_csv uniform_env (lhs_path ''lhs_2'') =
     Inr [[Float (1/2), Float (1/4)], [Float 0, Float 1]] \<and>
   fst (scale_lhs uniform_env ''lhs_2'' True []) =
     Inr [[(''param1'', Float (7/2)), (''param2'', Float (-1/2))],
          [(''param1'', Float 2), (''param2'', Float 1)]]"
proof -
  let ?lhs = "[[Float (1/2), Float (1/4)], [Float 0, Float 1]]"
  let ?out = "[[(''param1'', Float (7/2)), (''param2'', Float (-1/2))],
               [(''param1'', Float 2), (''param2'', Float 1)]]"
  let ?d0 = "\<lparr>distribution = ''uniform'', specs = [Float 2, Float 3]\<rparr>"
  let ?d1 = "\<lparr>distribution = ''uniform'', specs = [Float (-1), Float 2]\<rparr>"
  have two: "(\<forall>k<2. P k) \<longleftrightarrow> P 0 \<and> P (1::nat)" for P
    by (auto simp: numeral_2_eq_2 All_less_Suc)
  have d: "distinct (COSMO uniform_env)"
    by (simp add: uniform_env_def)
  have r: "read_csv uniform_env (lhs_path ''lhs_2'') = Inr ?lhs"
    by code_simp
  have n: "length (COSMO uniform_env) = 2" "length ?lhs = 2" "length ?out = 2"
    by (simp_all add: uniform_env_def)
  have keys: "map fst (?out ! 0) = COSMO uniform_env" "map fst (?out ! 1) = COSMO uniform_env"
    by (simp_all add: uniform_env_def)
  have p0: "PRIORS uniform_env (COSMO uniform_env ! 0) = Some ?d0"
    and p1: "PRIORS uniform_env (COSMO uniform_env ! 1) = Some ?d1"
    by (simp_all add: uniform_env_def)
  have g0: "generate_prior uniform_env ?d0 = Inr (Float 2, Float 3)"
    and g1: "generate_prior uniform_env ?d1 = Inr (Float (-1), Float 2)"
    by (simp_all add: generate_prior_def uniform_env_def scipy_uniform_def)
  have c: "0 < length (?lhs ! 0)" "1 < length (?lhs ! 0)"
          "0 < length (?lhs ! 1)" "1 < length (?lhs ! 1)"
    by simp_all
  have q00: "quantile_at uniform_env (Float 2, Float 3) (?lhs ! 0 ! 0) = Inr (Float (7/2))"
    and q01: "quantile_at uniform_env (Float (-1), Float 2) (?lhs ! 0 ! 1) = Inr (Float (-1/2))"
    and q10: "quantile_at uniform_env (Float 2, Float 3) (?lhs ! 1 ! 0) = Inr (Float 2)"
    and q11: "quantile_at uniform_env (Float (-1), Float 2) (?lhs ! 1 ! 1) = Inr (Float 1)"
    by (simp_all add: quantile_at_def uniform_env_def scipy_ppf_def)
  have m00: "map_of (?out ! 0) (COSMO uniform_env ! 0) = Some (Float (7/2))"
    and m01: "map_of (?out ! 0) (COSMO uniform_env ! 1) = Some (Float (-1/2))"
    and m10: "map_of (?out ! 1) (COSMO uniform_env ! 0) = Some (Float 2)"
    and m11: "map_of (?out ! 1) (COSMO uniform_env ! 1) = Some (Float 1)"
    by (simp_all add: uniform_env_def)
  have "fst (scale_lhs uniform_env ''lhs_2'' True []) = Inr ?out"
    unfolding scale_lhs_values [OF d r] n two
    using keys p0 p1 g0 g1 c q00 q01 q10 q11 m00 m01 m10 m11 by blast
  with d r show ?thesis by blast
qed


text \<open>
  The claim as first stated fails when a parameter name is configured twice. The later
  index overwrites the value of the earlier one: with the names \<open>p, p\<close> and the row
  \<open>1/4, 3/4\<close> the returned dictionary maps \<open>p\<close>, the name of index \<open>0\<close>, to the
  quantile of \<open>3/4\<close> and not to that of the cell of index \<open>0\<close>.
\<close>

theorem scale_lhs_values_counterexample:
  "COSMO duplicate_env ! 0 = ''p'' \<and>
   PRIORS duplicate_env ''p'' = Some \<lparr>distribution = ''uniform'', specs = [Float 0, Float 1]\<rparr> \<and>
   generate_prior duplicate_env \<lparr>distribution = ''uniform'', specs = [Float 0, Float 1]\<rparr> =
     Inr (Float 0, Float 1) \<and>
   read_csv duplicate_env (lhs_path ''lhs_1'') = Inr [[Float (1/4), Float (3/4)]] \<and>
   quantile_at duplicate_env (Float 0, Float 1) ([[Float (1/4), Float (3/4)]] ! 0 ! 0) =
     Inr (Float (1/4)) \<and>
   fst (scale_lhs duplicate_env ''lhs_1'' False []) = Inr [[(''p'', Float (3/4))]] \<and>
   map_of ([[(''p'', Float (3/4))]] ! 0) (COSMO duplicate_env ! 0) \<noteq> Some (Float (1/4))"
  by code_simp

text \<open>
  C2. The number of scaled cosmologies that \<open>scale_lhs\<close> returns is the number of rows
  of the sample matrix, and \<open>pk_linear\<close> returns as many power-spectrum results as scaled
  cosmologies: the three counts are equal.
\<close>

theorem row_count_invariance:
  assumes "read_csv env (lhs_path fname) = Inr lhs"
  shows "(\<forall>cosmo_list. fst (scale_lhs env fname save evs) = Inr cosmo_list \<longrightarrow>
            length cosmo_list = length lhs) \<and>
         (\<forall>cosmologies pk_lin.
            fst (pk_linear env fname redshift evs) = Inr (cosmologies, pk_lin) \<longrightarrow>
            length cosmologies = length lhs \<and> length pk_lin = length cosmologies)"
proof (intro conjI allI impI)
  fix cosmo_list
  assume "fst (scale_lhs env fname save evs) = Inr cosmo_list"
  with assms show "length cosmo_list = length lhs"
    by (rule scale_lhs_length)
next
  fix cosmologies pk_lin
  assume "fst (pk_linear env fname redshift evs) = Inr (cosmologies, pk_lin)"
  then have s: "fst (scale_lhs env fname True evs) = Inr cosmologies"
    and m: "map (\<lambda>cosmo. pk_linear_method env
            (PowerSpectrum env (Z_MIN env) (Z_MAX env) (K_MIN env) (K_MAX env)) cosmo redshift)
         cosmologies = map Inr pk_lin"
    by (simp_all add: pk_linear_Inr_iff)
  from assms s show "length cosmologies = length lhs"
    by (rule scale_lhs_length)
  from m show "length pk_lin = length cosmologies"
    by (rule map_eq_imp_length_eq [symmetric])
qed

theorem row_count_invariance_witness:
  "read_csv example_env (lhs_path ''lhs_3'') =
     Inr [[1/2, 1/2], [7/10, 1/10], [1/5, 1/5]] \<and>
   (\<exists>cosmo_list. fst (scale_lhs example_env ''lhs_3'' False []) = Inr cosmo_list \<and>
      length cosmo_list = 3) \<and>
   (\<exists>cosmologies pk_lin.
      fst (pk_linear example_env ''lhs_500'' 0 []) = Inr (cosmologies, pk_lin) \<and>
      length cosmologies = 1 \<and> length pk_lin = 1)"
proof -
  have r3: "read_csv example_env (lhs_path ''lhs_3'') =
     Inr [[1/2, 1/2], [7/10, 1/10], [1/5, 1/5]]"
    by code_simp
  have r1: "read_csv example_env (lhs_path ''lhs_500'') = Inr [[1/2, 1/2]]"
    by code_simp
  have s: "fst (scale_lhs example_env ''lhs_3'' False []) =
     Inr [[(''param1'', 1/2), (''param2'', 1/2)], [(''param1'', 7/10), (''param2'', 1/10)],
          [(''param1'', 1/5), (''param2'', 1/5)]]"
    by code_simp
  have p: "fst (pk_linear example_env ''lhs_500'' 0 []) =
     Inr ([[(''param1'', 1/2), (''param2'', 1/2)]], [[1/2, 1/2]])"
    by code_simp
  from row_count_invariance [OF r3, where save = False and evs = "[]"] s
  have a: "\<exists>cosmo_list. fst (scale_lhs example_env ''lhs_3'' False []) = Inr cosmo_list \<and>
      length cosmo_list = 3"
    by simp
  from row_count_invariance [OF r1, where redshift = 0 and evs = "[]"] p
  have b: "\<exists>cosmologies pk_lin.
      fst (pk_linear example_env ''lhs_500'' 0 []) = Inr (cosmologies, pk_lin) \<and>
      length cosmologies = 1 \<and> length pk_lin = 1"
    by simp
  from r3 a b show ?thesis by blast
qed

text \<open>
  C3. The \<open>i\<close>-th scaled cosmology is a function of the \<open>i\<close>-th row only: a run on
  another sample matrix (another file, another \<open>read_csv\<close>, another \<open>save\<close> flag, other
  events before it) with the same configuration and the same \<open>i\<close>-th row returns the
  same \<open>i\<close>-th cosmology, whatever its other rows are. The \<open>i\<close>-th power-spectrum result
  of \<open>pk_linear\<close> is what the engine returns for the \<open>i\<close>-th scaled cosmology and the
  redshift, and the cosmologies \<open>pk_linear\<close> returns are those of \<open>scale_lhs\<close>.
\<close>

theorem order_preservation:
  assumes "read_csv env (lhs_path fname) = Inr lhs"
    and "rd' (lhs_path fname') = Inr lhs'"
    and "i < length lhs"
    and "i < length lhs'"
    and "lhs' ! i = lhs ! i"
  shows "(\<forall>cosmo_list cosmo_list'.
            fst (scale_lhs env fname save evs) = Inr cosmo_list \<and>
            fst (scale_lhs (env\<lparr>read_csv := rd'\<rparr>) fname' save' evs') = Inr cosmo_list' \<longrightarrow>
            cosmo_list' ! i = cosmo_list ! i) \<and>
         (\<forall>cosmologies pk_lin.
            fst (pk_linear env fname redshift evs) = Inr (cosmologies, pk_lin) \<longrightarrow>
            fst (scale_lhs env fname save evs) = Inr cosmologies \<and>
            pk_linear_method env
              (PowerSpectrum env (Z_MIN env) (Z_MAX env) (K_MIN env) (K_MAX env))
              (cosmologies ! i) redshift = Inr (pk_lin ! i))"
proof (intro conjI allI impI)
  fix cosmo_list cosmo_list'
  assume a: "fst (scale_lhs env fname save evs) = Inr cosmo_list \<and>
            fst (scale_lhs (env\<lparr>read_csv := rd'\<rparr>) fname' save' evs') = Inr cosmo_list'"
  let ?env' = "env\<lparr>read_csv := rd'\<rparr>"
  from a assms(1,3) obtain priors where
    b: "build_priors env (COSMO env) Map.empty = Inr priors" and
    c: "scale_row env priors (lhs ! i) [0..<length (COSMO env)] [] = Inr (cosmo_list ! i)"
    using scale_lhs_nth [of env fname lhs save evs cosmo_list i] by blast
  have r: "read_csv ?env' (lhs_path fname') = Inr lhs'"
    using assms(2) by simp
  from a r assms(4) obtain priors' where
    b': "build_priors ?env' (COSMO ?env') Map.empty = Inr priors'" and
    c': "scale_row ?env' priors' (lhs' ! i) [0..<length (COSMO ?env')] [] = Inr (cosmo_list' ! i)"
    using scale_lhs_nth [of ?env' fname' lhs' save' evs' cosmo_list' i] by blast
  have "build_priors ?env' (COSMO ?env') Map.empty = build_priors env (COSMO env) Map.empty"
    using build_priors_cong [of ?env' env "COSMO env" Map.empty] by simp
  with b b' have p: "priors' = priors" by simp
  have "scale_row ?env' priors (lhs ! i) [0..<length (COSMO ?env')] [] =
        scale_row env priors (lhs ! i) [0..<length (COSMO env)] []"
    using scale_row_cong [of ?env' env priors "lhs ! i" "[0..<length (COSMO env)]" "[]"] by simp
  with c c' p assms(5) show "cosmo_list' ! i = cosmo_list ! i" by simp
next
  fix cosmologies pk_lin
  let ?f = "\<lambda>cosmo. pk_linear_method env
            (PowerSpectrum env (Z_MIN env) (Z_MAX env) (K_MIN env) (K_MAX env)) cosmo redshift"
  assume "fst (pk_linear env fname redshift evs) = Inr (cosmologies, pk_lin)"
  then have s: "fst (scale_lhs env fname True evs) = Inr cosmologies"
    and m: "map ?f cosmologies = map Inr pk_lin"
    by (simp_all add: pk_linear_Inr_iff)
  from s show s': "fst (scale_lhs env fname save evs) = Inr cosmologies"
    by (simp only: scale_lhs_result)
  from assms(1) s have n: "length cosmologies = length lhs"
    by (rule scale_lhs_length)
  from m have "length cosmologies = length pk_lin"
    by (rule map_eq_imp_length_eq)
  with n assms(3) m show "?f (cosmologies ! i) = Inr (pk_lin ! i)"
    using nth_map [of i cosmologies ?f] nth_map [of i pk_lin Inr] by simp
qed

theorem order_preservation_witness:
  "read_csv example_env (lhs_path ''lhs_500'') = Inr [[1/2, 1/2]] \<and>
   example_read_csv (lhs_path ''lhs_3'') = Inr [[1/2, 1/2], [7/10, 1/10], [1/5, 1/5]] \<and>
   (\<exists>cosmo_list cosmo_list'.
      fst (scale_lhs example_env ''lhs_500'' True []) = Inr cosmo_list \<and>
      fst (scale_lhs (example_env\<lparr>read_csv := example_read_csv\<rparr>) ''lhs_3'' False []) =
        Inr cosmo_list' \<and>
      cosmo_list' ! 0 = cosmo_list ! 0) \<and>
   (\<exists>cosmologies pk_lin.
      fst (pk_linear example_env ''lhs_500'' 0 []) = Inr (cosmologies, pk_lin) \<and>
      pk_linear_method example_env
        (PowerSpectrum example_env (Z_MIN example_env) (Z_MAX example_env) (K_MIN example_env)
           (K_MAX example_env))
        (cosmologies ! 0) 0 = Inr (pk_lin ! 0))"
proof -
  let ?lhs = "[[1/2, 1/2 :: real]]"
  let ?lhs' = "[[1/2, 1/2], [7/10, 1/10], [1/5, 1/5 :: real]]"
  have r: "read_csv example_env (lhs_path ''lhs_500'') = Inr ?lhs"
    by code_simp
  have r': "example_read_csv (lhs_path ''lhs_3'') = Inr ?lhs'"
    by code_simp
  have i: "0 < length ?lhs" and i': "0 < length ?lhs'" and same: "?lhs' ! 0 = ?lhs ! 0"
    by simp_all
  have s: "fst (scale_lhs example_env ''lhs_500'' True []) =
             Inr [[(''param1'', 1/2), (''param2'', 1/2)]]"
    by code_simp
  have s': "fst (scale_lhs (example_env\<lparr>read_csv := example_read_csv\<rparr>) ''lhs_3'' False []) =
     Inr [[(''param1'', 1/2), (''param2'', 1/2)], [(''param1'', 7/10), (''param2'', 1/10)],
          [(''param1'', 1/5), (''param2'', 1/5)]]"
    by code_simp
  have p: "fst (pk_linear example_env ''lhs_500'' 0 []) =
     Inr ([[(''param1'', 1/2), (''param2'', 1/2)]], [[1/2, 1/2]])"
    by code_simp
  note t = order_preservation [where env = example_env and fname = "''lhs_500''"
      and rd' = example_read_csv and fname' = "''lhs_3''" and i = 0 and save = True
      and evs = "[]" and save' = False and evs' = "[]" and redshift = 0, OF r r' i i' same]
  from t s s' have a: "\<exists>cosmo_list cosmo_list'.
      fst (scale_lhs example_env ''lhs_500'' True []) = Inr cosmo_list \<and>
      fst (scale_lhs (example_env\<lparr>read_csv := example_read_csv\<rparr>) ''lhs_3'' False []) =
        Inr cosmo_list' \<and>
      cosmo_list' ! 0 = cosmo_list ! 0"
    by simp
  from t p have b: "\<exists>cosmologies pk_lin.
      fst (pk_linear example_env ''lhs_500'' 0 []) = Inr (cosmologies, pk_lin) \<and>
      pk_linear_method example_env
        (PowerSpectrum example_env (Z_MIN example_env) (Z_MAX example_env) (K_MIN example_env)
           (K_MAX example_env))
        (cosmologies ! 0) 0 = Inr (pk_lin ! 0)"
    by blast
  from r r' a b show ?thesis by blast
qed




text \<open>
  C5. When the engine fails on row \<open>i\<close> (the rows before it having been computed),
  \<open>pk_linear\<close> raises the engine's exception. The events of the call are then the read of
  the input, the two saves of the scaled cosmologies, and the engine calls for the rows
  \<open>0\<close> to \<open>i\<close>, and nothing else: the engine is not called for a row after \<open>i\<close>, and
  neither \<open>hp.save_csv\<close> nor \<open>hp.save_list\<close> is called with power-spectrum results, not
  even with those of the rows before \<open>i\<close>.
\<close>

theorem engine_failure_aborts:
  assumes "fst (scale_lhs env fname True evs) = Inr cosmologies"
    and "i < length cosmologies"
    and "\<forall>j<i. \<exists>pk. pk_linear_method env
            (PowerSpectrum env (Z_MIN env) (Z_MAX env) (K_MIN env) (K_MAX env))
            (cosmologies ! j) redshift = Inr pk"
    and "pk_linear_method env
            (PowerSpectrum env (Z_MIN env) (Z_MAX env) (K_MIN env) (K_MAX env))
            (cosmologies ! i) redshift = Inl e"
  shows "pk_linear env fname redshift evs =
           (Inl e,
            evs @ [Read_csv (lhs_path fname),
                   Save_csv (Cosmologies cosmologies) ''data'' ''cosmologies'',
                   Save_list (Cosmologies cosmologies) ''data'' ''cosmologies''] @
              map (\<lambda>cosmo. Pk_call cosmo redshift) (take (Suc i) cosmologies))"
proof -
  let ?M = "PowerSpectrum env (Z_MIN env) (Z_MAX env) (K_MIN env) (K_MAX env)"
  let ?evs1 = "evs @ [Read_csv (lhs_path fname),
                   Save_csv (Cosmologies cosmologies) ''data'' ''cosmologies'',
                   Save_list (Cosmologies cosmologies) ''data'' ''cosmologies'']"
  have "snd (scale_lhs env fname True evs) = ?evs1"
    using assms(1) by (simp add: scale_lhs_events)
  with assms(1) have s: "scale_lhs env fname True evs = (Inr cosmologies, ?evs1)"
    by (simp add: prod_eq_iff)
  have "pk_loop env ?M redshift cosmologies [] ?evs1 =
          (Inl e, ?evs1 @ map (\<lambda>cosmo. Pk_call cosmo redshift) (take (Suc i) cosmologies))"
    using assms(2,3,4) by (rule pk_loop_Inl)
  with s show ?thesis
    by (simp add: pk_linear_def)
qed

theorem engine_failure_aborts_witness:
  "pk_linear example_env ''lhs_3'' 0 [] =
     (Inl RuntimeError,
      [Read_csv ''data/lhs_3.csv'',
       Save_csv (Cosmologies [[(''param1'', 1/2), (''param2'', 1/2)],
                              [(''param1'', 7/10), (''param2'', 1/10)],
                              [(''param1'', 1/5), (''param2'', 1/5)]]) ''data'' ''cosmologies'',
       Save_list (Cosmologies [[(''param1'', 1/2), (''param2'', 1/2)],
                               [(''param1'', 7/10), (''param2'', 1/10)],
                               [(''param1'', 1/5), (''param2'', 1/5)]]) ''data'' ''cosmologies'',
       Pk_call [(''param1'', 1/2), (''param2'', 1/2)] 0,
       Pk_call [(''param1'', 7/10), (''param2'', 1/10)] 0])"
proof -
  let ?cs = "[[(''param1'', 1/2), (''param2'', 1/2)],
              [(''param1'', 7/10), (''param2'', 1/10)],
              [(''param1'', 1/5), (''param2'', 1/5 :: real)]]"
  let ?M = "PowerSpectrum example_env (Z_MIN example_env) (Z_MAX example_env)
              (K_MIN example_env) (K_MAX example_env)"
  have s: "fst (scale_lhs example_env ''lhs_3'' True []) = Inr ?cs"
    by code_simp
  have i: "1 < length ?cs"
    by simp
  have before: "\<forall>j<1. \<exists>pk. pk_linear_method example_env ?M (?cs ! j) 0 = Inr pk"
    by (simp add: example_env_def example_pk_def)
  have fails: "pk_linear_method example_env ?M (?cs ! 1) 0 = Inl RuntimeError"
    by (simp add: example_env_def example_pk_def)
  have p: "lhs_path ''lhs_3'' = ''data/lhs_3.csv''"
    by (simp add: lhs_path_def path_join_data)
  from engine_failure_aborts [OF s i before fails] show ?thesis
    by (simp add: p)
qed

text \<open>
  C6. \<open>scale_lhs\<close> is deterministic: what it returns is a function of the sample
  matrix (what \<open>read_csv\<close> gives for the path) and of the priors (the parameter names,
  their prior specifications, \<open>scipy.stats\<close> and the quantile functions) alone. Two runs
  that agree on these return the same list or raise the same exception, whatever the
  \<open>save\<close> flag, the events so far, the other files and the engine are. The code draws
  no random number; the model has no source of randomness to draw from.
\<close>

theorem scale_lhs_deterministic:
  assumes "COSMO env' = COSMO env"
    and "PRIORS env' = PRIORS env"
    and "scipy_stats env' = scipy_stats env"
    and "ppf env' = ppf env"
    and "read_csv env' (lhs_path fname) = read_csv env (lhs_path fname)"
  shows "fst (scale_lhs env' fname save' evs') = fst (scale_lhs env fname save evs)"
proof -
  have b: "build_priors env' (COSMO env) Map.empty = build_priors env (COSMO env) Map.empty"
    using assms(2,3) by (rule build_priors_cong)
  have r: "scale_rows env' priors lhs is [] = scale_rows env priors lhs is []" for priors lhs "is"
    using assms(1,4) by (rule scale_rows_cong)
  show ?thesis
    by (simp add: scale_lhs_result assms(1,5) b r split: sum.split)
qed

theorem scale_lhs_deterministic_witness:
  "read_csv (example_env\<lparr>read_csv := \<lambda>path. Inr [[1/2, 1/2]],
                          pk_linear_method := \<lambda>pk_module cosmo redshift. Inl ValueError\<rparr>)
      (lhs_path ''lhs_500'') = read_csv example_env (lhs_path ''lhs_500'') \<and>
   fst (scale_lhs (example_env\<lparr>read_csv := \<lambda>path. Inr [[1/2, 1/2]],
                                pk_linear_method := \<lambda>pk_module cosmo redshift. Inl ValueError\<rparr>)
          ''lhs_500'' True [Read_csv ''other.csv'']) =
   fst (scale_lhs example_env ''lhs_500'' False [])"
proof -
  have "read_csv (example_env\<lparr>read_csv := \<lambda>path. Inr [[1/2, 1/2]],
                    pk_linear_method := \<lambda>pk_module cosmo redshift. Inl ValueError\<rparr>) (lhs_path ''lhs_500'') =
        read_csv example_env (lhs_path ''lhs_500'')"
    by (simp add: example_env_def example_read_csv_def lhs_path_def path_join_data)
  moreover from this have "fst (scale_lhs (example_env\<lparr>read_csv := \<lambda>path. Inr [[1/2, 1/2]],
                                pk_linear_method := \<lambda>pk_module cosmo redshift. Inl ValueError\<rparr>)
          ''lhs_500'' True [Read_csv ''other.csv'']) =
   fst (scale_lhs example_env ''lhs_500'' False [])"
    by (intro scale_lhs_deterministic) simp_all
  ultimately show ?thesis by (rule conjI)
qed

text \<open>
  C7. The \<open>save\<close> flag controls persistence. With \<open>save\<close> false, the only event of
  \<open>scale_lhs\<close> is the read of the input. With \<open>save\<close> true and a list returned, the
  events are that read, then \<open>hp.save_csv\<close> of the data frame of exactly the returned
  list and \<open>hp.save_list\<close> of exactly the returned list, both with folder \<open>data\<close> and
  name \<open>cosmologies\<close>; when an exception is raised nothing is saved. The returned value
  is the same for both values of the flag.
\<close>

theorem scale_lhs_save_flag:
  "snd (scale_lhs env fname False evs) = evs @ [Read_csv (lhs_path fname)] \<and>
   fst (scale_lhs env fname True evs) = fst (scale_lhs env fname False evs) \<and>
   snd (scale_lhs env fname True evs) =
     evs @ Read_csv (lhs_path fname) #
       (case fst (scale_lhs env fname False evs) of
          Inl e \<Rightarrow> []
        | Inr cosmo_list \<Rightarrow>
            [Save_csv (Cosmologies cosmo_list) ''data'' ''cosmologies'',
             Save_list (Cosmologies cosmo_list) ''data'' ''cosmologies''])"
proof -
  have same: "fst (scale_lhs env fname True evs) = fst (scale_lhs env fname False evs)"
    by (simp only: scale_lhs_result)
  have off: "snd (scale_lhs env fname False evs) = evs @ [Read_csv (lhs_path fname)]"
    by (simp add: scale_lhs_events split: sum.split)
  have on: "snd (scale_lhs env fname True evs) =
     evs @ Read_csv (lhs_path fname) #
       (case fst (scale_lhs env fname True evs) of
          Inl e \<Rightarrow> []
        | Inr cosmo_list \<Rightarrow>
            [Save_csv (Cosmologies cosmo_list) ''data'' ''cosmologies'',
             Save_list (Cosmologies cosmo_list) ''data'' ''cosmologies''])"
    by (simp add: scale_lhs_events split: sum.split)
  from same off on show ?thesis by simp
qed

theorem scale_lhs_save_flag_witness:
  "snd (scale_lhs example_env ''lhs_500'' False []) = [Read_csv ''data/lhs_500.csv''] \<and>
   snd (scale_lhs example_env ''lhs_500'' True []) =
     [Read_csv ''data/lhs_500.csv'',
      Save_csv (Cosmologies [[(''param1'', 1/2), (''param2'', 1/2)]]) ''data'' ''cosmologies'',
      Save_list (Cosmologies [[(''param1'', 1/2), (''param2'', 1/2)]]) ''data'' ''cosmologies'']"
proof -
  have p: "lhs_path ''lhs_500'' = ''data/lhs_500.csv''"
    by code_simp
  have r: "fst (scale_lhs example_env ''lhs_500'' False []) =
             Inr [[(''param1'', 1/2), (''param2'', 1/2)]]"
    by code_simp
  from scale_lhs_save_flag [of example_env "''lhs_500''" "[]"] show ?thesis
    unfolding p r by simp
qed

text \<open>
  C8. For a sample matrix with zero rows, \<open>scale_lhs\<close> returns the empty list, and
  \<open>pk_linear\<close> returns the empty list of cosmologies and the empty list of power-spectrum
  results, as soon as the priors of the configuration can be built (they are built before
  the rows are looked at, so that a configuration whose priors fail raises here too). In
  every case the engine is not called: no event of the call is a \<open>Pk_call\<close>.
\<close>

theorem zero_rows:
  assumes "read_csv env (lhs_path fname) = Inr []"
  shows "(\<forall>priors. build_priors env (COSMO env) Map.empty = Inr priors \<longrightarrow>
            fst (scale_lhs env fname save evs) = Inr [] \<and>
            pk_linear env fname redshift evs =
              (Inr ([], []),
               evs @ [Read_csv (lhs_path fname),
                      Save_csv (Cosmologies []) ''data'' ''cosmologies'',
                      Save_list (Cosmologies []) ''data'' ''cosmologies'',
                      Save_csv (Spectra []) ''data'' ''pk_linear'',
                      Save_list (Spectra []) ''data'' ''pk_linear''])) \<and>
         (\<forall>cosmo_list. fst (scale_lhs env fname save evs) = Inr cosmo_list \<longrightarrow> cosmo_list = []) \<and>
         (\<forall>cosmologies pk_lin.
            fst (pk_linear env fname redshift evs) = Inr (cosmologies, pk_lin) \<longrightarrow>
            cosmologies = [] \<and> pk_lin = []) \<and>
         (\<forall>cosmo z. Pk_call cosmo z \<notin>
            set (drop (length evs) (snd (pk_linear env fname redshift evs))))"
proof -
  have res: "fst (scale_lhs env fname b evs) =
      (case build_priors env (COSMO env) Map.empty of Inl e \<Rightarrow> Inl e | Inr priors \<Rightarrow> Inr [])" for b
    using assms by (simp add: scale_lhs_result split: sum.split)
  have pk: "pk_linear env fname redshift evs =
      (case build_priors env (COSMO env) Map.empty of
         Inl e \<Rightarrow> (Inl e, evs @ [Read_csv (lhs_path fname)])
       | Inr priors \<Rightarrow>
           (Inr ([], []),
            evs @ [Read_csv (lhs_path fname),
                   Save_csv (Cosmologies []) ''data'' ''cosmologies'',
                   Save_list (Cosmologies []) ''data'' ''cosmologies'',
                   Save_csv (Spectra []) ''data'' ''pk_linear'',
                   Save_list (Spectra []) ''data'' ''pk_linear'']))"
  proof (cases "build_priors env (COSMO env) Map.empty")
    case (Inl e)
    then have "scale_lhs env fname True evs = (Inl e, evs @ [Read_csv (lhs_path fname)])"
      using res [of True] scale_lhs_events [of env fname True evs] by (simp add: prod_eq_iff)
    with Inl show ?thesis by (simp add: pk_linear_def)
  next
    case (Inr priors)
    then have "scale_lhs env fname True evs =
        (Inr [], evs @ [Read_csv (lhs_path fname),
                   Save_csv (Cosmologies []) ''data'' ''cosmologies'',
                   Save_list (Cosmologies []) ''data'' ''cosmologies''])"
      using res [of True] scale_lhs_events [of env fname True evs] by (simp add: prod_eq_iff)
    with Inr show ?thesis by (simp add: pk_linear_def)
  qed
  show ?thesis
  proof (intro conjI allI impI)
    fix priors
    assume b: "build_priors env (COSMO env) Map.empty = Inr priors"
    with res [of save] show "fst (scale_lhs env fname save evs) = Inr []" by simp
    from b pk show "pk_linear env fname redshift evs =
              (Inr ([], []),
               evs @ [Read_csv (lhs_path fname),
                      Save_csv (Cosmologies []) ''data'' ''cosmologies'',
                      Save_list (Cosmologies []) ''data'' ''cosmologies'',
                      Save_csv (Spectra []) ''data'' ''pk_linear'',
                      Save_list (Spectra []) ''data'' ''pk_linear''])"
      by simp
  next
    fix cosmo_list
    assume "fst (scale_lhs env fname save evs) = Inr cosmo_list"
    with res [of save] show "cosmo_list = []"
      by (simp split: sum.splits)
  next
    fix cosmologies pk_lin
    assume "fst (pk_linear env fname redshift evs) = Inr (cosmologies, pk_lin)"
    with pk show "cosmologies = []" and "pk_lin = []"
      by (simp_all split: sum.splits)
  next
    fix cosmo z
    show "Pk_call cosmo z \<notin> set (drop (length evs) (snd (pk_linear env fname redshift evs)))"
      by (simp add: pk split: sum.split)
  qed
qed

theorem zero_rows_witness:
  "read_csv example_env (lhs_path ''lhs_0'') = Inr [] \<and>
   fst (scale_lhs example_env ''lhs_0'' False []) = Inr [] \<and>
   pk_linear example_env ''lhs_0'' 0 [] =
     (Inr ([], []),
      [Read_csv ''data/lhs_0.csv'',
       Save_csv (Cosmologies []) ''data'' ''cosmologies'',
       Save_list (Cosmologies []) ''data'' ''cosmologies'',
       Save_csv (Spectra []) ''data'' ''pk_linear'',
       Save_list (Spectra []) ''data'' ''pk_linear''])"
proof -
  have r: "read_csv example_env (lhs_path ''lhs_0'') = Inr []"
    by code_simp
  have p: "lhs_path ''lhs_0'' = ''data/lhs_0.csv''"
    by (simp add: lhs_path_def path_join_data)
  have "\<exists>priors. build_priors example_env (COSMO example_env) Map.empty = Inr priors"
    by (simp add: example_env_def generate_prior_def example_uniform_def)
  then obtain priors where b: "build_priors example_env (COSMO example_env) Map.empty = Inr priors" ..
  from zero_rows [OF r, where save = False and evs = "[]" and redshift = 0] b r show ?thesis
    by (simp add: p)
qed




text \<open>
  C10 (as amended). \<open>scale_lhs\<close> resolves its input path by a substring test, not a
  suffix test: for every \<open>fname\<close> that does not start with \<open>/\<close>, if \<open>.csv\<close> occurs
  anywhere in \<open>fname\<close> the one file read is \<open>data/fname\<close>, otherwise it is
  \<open>data/fname.csv\<close>. The restriction is needed: \<open>os.path.join\<close> drops \<open>data\<close> when
  \<open>fname\<close> starts with the separator (see \<open>lhs_path_eq\<close> and the counterexample).
\<close>

theorem scale_lhs_path:
  assumes "\<not> prefix ''/'' fname"
  shows "\<exists>rest. snd (scale_lhs env fname save evs) =
            evs @ Read_csv
              (if \<exists>p s. fname = p @ ''.csv'' @ s then ''data/'' @ fname
               else ''data/'' @ fname @ ''.csv'') # rest \<and>
          (\<forall>path. Read_csv path \<notin> set rest)"
proof -
  have "lhs_path fname =
      (if \<exists>p s. fname = p @ ''.csv'' @ s then ''data/'' @ fname
       else ''data/'' @ fname @ ''.csv'')"
    using assms by (simp only: lhs_path_eq if_False)
  then show ?thesis
    unfolding scale_lhs_events by (auto split: sum.split)
qed

theorem scale_lhs_path_witness:
  "\<not> prefix ''/'' ''lhs.csv.bak'' \<and>
   (\<exists>rest. snd (scale_lhs example_env ''lhs.csv.bak'' False []) =
             Read_csv ''data/lhs.csv.bak'' # rest \<and>
           (\<forall>path. Read_csv path \<notin> set rest))"
proof -
  have h: "\<not> prefix ''/'' ''lhs.csv.bak''" by simp
  have c: "\<exists>p s. ''lhs.csv.bak'' = p @ ''.csv'' @ s"
    unfolding str_contains_iff [symmetric] by simp
  from scale_lhs_path [OF h, of example_env False "[]"] c h show ?thesis
    by simp
qed

text \<open>
  The claim as first stated fails for a name that starts with the separator: \<open>.csv\<close>
  occurs in \<open>/lhs.csv\<close>, and the file read is \<open>/lhs.csv\<close>, not \<open>data//lhs.csv\<close>.
\<close>

theorem scale_lhs_path_counterexample:
  "str_contains ''.csv'' ''/lhs.csv'' \<and>
   snd (scale_lhs example_env ''/lhs.csv'' False []) = [Read_csv ''/lhs.csv''] \<and>
   ''/lhs.csv'' \<noteq> ''data/'' @ ''/lhs.csv''"
  by code_simp

end
